theory Spec2Isabelle
  imports Complex_Main "HOL-Library.Char_ord" "HOL-Library.List_Lexorder"
begin

section \<open>Runs of a script\<close>

text \<open>
  Both scripts are straight-line glue over libraries. A run is modelled by what it leaves
  behind: the ordered list of its externally visible actions and the way it ended. A
  Python process ends by falling off the end of the script (status 0), by
  \<^verbatim>\<open>sys.exit(n)\<close> (status \<open>n\<close>), or by an exception nobody catches (traceback,
  status 1).
\<close>

datatype py_error =
    FileNotFoundError | FileExistsError | OSError | ParserError | ValueError
  | DownloadError

datatype outcome = Returned | Exit nat | Raised py_error

definition exit_status :: "outcome \<Rightarrow> nat" where
  "exit_status out = (case out of Returned \<Rightarrow> 0 | Exit n \<Rightarrow> n | Raised e \<Rightarrow> 1)"

section \<open>The Plotter: \<^verbatim>\<open>scripts/plot_results.py\<close>\<close>

subsection \<open>Tables as \<^verbatim>\<open>pandas.read_csv\<close> yields them\<close>

text \<open>
  \<^verbatim>\<open>read_csv\<close> infers one type per column: a column is numeric (integers and floats,
  an empty cell read as NaN) or it holds strings (an empty cell again NaN). A missing cell
  is \<open>None\<close>. Finite floats are idealised as reals; infinities are not represented.
  A frame is the list of its named columns, in file order.
\<close>

datatype column = StrCol "string option list" | NumCol "real option list"

type_synonym frame = "(string \<times> column) list"

definition columns :: "frame \<Rightarrow> string list" where
  "columns df = map fst df"

definition getcol :: "frame \<Rightarrow> string \<Rightarrow> column option" where
  "getcol df name = map_of df name"

text \<open>
  A group label is a cell of the \<^verbatim>\<open>cache_type\<close> column: a string, or a number when
  the column is numeric. Labels of one column are all of one kind; pandas sorts group keys
  within that kind (strings by code point, numbers by value). The order below agrees with
  it there, and puts numbers before strings only to be total.
\<close>

datatype label = LNum real | LStr string

instantiation label :: linorder
begin

fun less_eq_label :: "label \<Rightarrow> label \<Rightarrow> bool" where
  "less_eq_label (LNum a) (LNum b) = (a \<le> b)"
| "less_eq_label (LNum a) (LStr t) = True"
| "less_eq_label (LStr s) (LNum b) = False"
| "less_eq_label (LStr s) (LStr t) = (s \<le> t)"

definition less_label :: "label \<Rightarrow> label \<Rightarrow> bool" where
  "less_label x y = (x \<le> y \<and> \<not> y \<le> x)"

instance
proof
  fix x y z :: label
  show "(x < y) = (x \<le> y \<and> \<not> y \<le> x)"
    by (simp add: less_label_def)
  show "x \<le> x"
    by (cases x) simp_all
  show "x \<le> y \<Longrightarrow> y \<le> z \<Longrightarrow> x \<le> z"
    by (cases x; cases y; cases z) auto
  show "x \<le> y \<Longrightarrow> y \<le> x \<Longrightarrow> x = y"
    by (cases x; cases y) auto
  show "x \<le> y \<or> y \<le> x"
    by (cases x; cases y) auto
qed

end

definition label_cells :: "column \<Rightarrow> label option list" where
  "label_cells c =
     (case c of StrCol ks \<Rightarrow> map (map_option LStr) ks | NumCol ks \<Rightarrow> map (map_option LNum) ks)"

text \<open>Every column of a table has one cell per row.\<close>

definition col_length :: "column \<Rightarrow> nat" where
  "col_length c = (case c of StrCol xs \<Rightarrow> length xs | NumCol xs \<Rightarrow> length xs)"

definition rectangular :: "frame \<Rightarrow> bool" where
  "rectangular df = (\<forall>c\<in>set df. \<forall>c'\<in>set df. col_length (snd c) = col_length (snd c'))"

text \<open>
  The file system as the Plotter reads it: a path names nothing, a file that parses as a
  table, or something that exists but that \<^verbatim>\<open>read_csv\<close> rejects (a directory, an
  empty or malformed file).
\<close>

datatype fs_entry = CsvFile frame | Unreadable

type_synonym filesystem = "string \<Rightarrow> fs_entry option"

definition path_exists :: "filesystem \<Rightarrow> string \<Rightarrow> bool" where
  "path_exists fs p = (fs p \<noteq> None)"

definition read_csv :: "filesystem \<Rightarrow> string \<Rightarrow> py_error + frame" where
  "read_csv fs p =
     (case fs p of
        None \<Rightarrow> Inl FileNotFoundError
      | Some Unreadable \<Rightarrow> Inl ParserError
      | Some (CsvFile df) \<Rightarrow> Inr df)"


subsection \<open>\<^verbatim>\<open>groupby\<close> and \<^verbatim>\<open>describe\<close>\<close>

text \<open>
  \<^verbatim>\<open>df.groupby("cache_type")\<close> with the defaults \<^verbatim>\<open>sort=True, dropna=True\<close>: one
  group per distinct key that is present, in sorted key order; a row whose key is
  missing belongs to no group; a group keeps its rows in table order. Selecting
  \<^verbatim>\<open>["latency_us"]\<close> keeps that column's cells of the group's rows.
\<close>

fun dropna :: "'a option list \<Rightarrow> 'a list" where
  "dropna [] = []"
| "dropna (None # xs) = dropna xs"
| "dropna (Some x # xs) = x # dropna xs"

definition group_keys :: "('k::linorder) option list \<Rightarrow> 'k list" where
  "group_keys ks = sort (remdups (dropna ks))"

definition rows_of :: "'k \<Rightarrow> 'k option list \<Rightarrow> 'v list \<Rightarrow> 'v list" where
  "rows_of k ks vs = map snd (filter (\<lambda>r. fst r = Some k) (zip ks vs))"

definition groupby :: "('k::linorder) option list \<Rightarrow> 'v list \<Rightarrow> ('k \<times> 'v list) list" where
  "groupby ks vs = map (\<lambda>k. (k, rows_of k ks vs)) (group_keys ks)"

text \<open>
  \<^verbatim>\<open>Series.describe()\<close> on a numeric column: \<^verbatim>\<open>count\<close> is the number of cells that
  are present; the other seven entries are computed from those cells and are NaN
  (\<open>None\<close>) when there is none (the standard deviation, with \<^verbatim>\<open>ddof=1\<close>, also when
  there is just one). Percentiles interpolate linearly between the two nearest ranks of
  the sorted sample, at the fractional rank \<open>q * (n - 1)\<close>.
\<close>

record stats =
  s_count :: nat
  s_mean :: "real option"
  s_std :: "real option"
  s_min :: "real option"
  s_q25 :: "real option"
  s_q50 :: "real option"
  s_q75 :: "real option"
  s_max :: "real option"

definition mean_of :: "real list \<Rightarrow> real option" where
  "mean_of xs = (if xs = [] then None else Some (sum_list xs / real (length xs)))"

definition std_of :: "real list \<Rightarrow> real option" where
  "std_of xs =
     (if length xs < 2 then None
      else let m = sum_list xs / real (length xs)
           in Some (sqrt (sum_list (map (\<lambda>x. (x - m)\<^sup>2) xs) / real (length xs - 1))))"

definition min_of :: "real list \<Rightarrow> real option" where
  "min_of xs = (if xs = [] then None else Some (Min (set xs)))"

definition max_of :: "real list \<Rightarrow> real option" where
  "max_of xs = (if xs = [] then None else Some (Max (set xs)))"

definition lerp_at :: "real list \<Rightarrow> real \<Rightarrow> real" where
  "lerp_at s h =
     (let lo = nat \<lfloor>h\<rfloor>; hi = min (lo + 1) (length s - 1)
      in s ! lo + (s ! hi - s ! lo) * (h - real lo))"

definition quantile :: "real list \<Rightarrow> real \<Rightarrow> real option" where
  "quantile xs q =
     (if xs = [] then None else Some (lerp_at (sort xs) (q * real (length xs - 1))))"

definition describe :: "real option list \<Rightarrow> stats" where
  "describe x =
     (let xs = dropna x in
      \<lparr> s_count = length xs, s_mean = mean_of xs, s_std = std_of xs, s_min = min_of xs,
        s_q25 = quantile xs (1/4), s_q50 = quantile xs (1/2), s_q75 = quantile xs (3/4),
        s_max = max_of xs \<rparr>)"


subsection \<open>What the Plotter does\<close>

text \<open>
  Console lines and calls into the plotting library are recorded in order. The printed
  statistics frame is recorded by its content, one block per row of the frame (group label
  and the eight statistics), not by pandas' text layout.
\<close>

datatype event =
    Print string
  | PrintStats "(label \<times> stats) list"
  | Figure nat nat
  | Hist "real option list" nat label
  | Boxplot "(label \<times> real list) list"
  | Xlabel string
  | Ylabel string
  | Title string
  | Suptitle string
  | Legend
  | Grid bool
  | Show

type_synonym run = "event list \<times> outcome"

text \<open>
  \<^verbatim>\<open>plt.hist(x, bins=50, alpha=0.6, label=name)\<close>. The library takes the bin range
  from the values that are present and passes the sample to \<^verbatim>\<open>numpy.histogram\<close>,
  which raises \<^verbatim>\<open>ValueError\<close> (autodetected range is not finite) for a non-empty
  sample without a single value. The script does not catch it.
\<close>

definition hist :: "real option list \<Rightarrow> label \<Rightarrow> py_error + event" where
  "hist x name =
     (if x \<noteq> [] \<and> dropna x = [] then Inl ValueError else Inr (Hist x 50 name))"

text \<open>The loop of lines 23-24: one histogram per group, stopping at the first raise.\<close>

fun hist_loop :: "(label \<times> real option list) list \<Rightarrow> event list \<times> py_error option" where
  "hist_loop [] = ([], None)"
| "hist_loop ((name, grp) # rest) =
     (case hist grp name of
        Inl e \<Rightarrow> ([], Some e)
      | Inr ev \<Rightarrow> (case hist_loop rest of (evs, r) \<Rightarrow> (ev # evs, r)))"

text \<open>
  \<^verbatim>\<open>df.boxplot(column="latency_us", by="cache_type")\<close> draws one box per group from
  the values that are present. pandas unzips the groups into keys and values first, which
  raises \<^verbatim>\<open>ValueError\<close> when there is no group at all (a table without rows, or
  without a single label).
\<close>

definition boxplot :: "(label \<times> real option list) list \<Rightarrow> py_error + event" where
  "boxplot grouped =
     (if grouped = [] then Inl ValueError
      else Inr (Boxplot (map (\<lambda>g. (fst g, dropna (snd g))) grouped)))"

definition micro_label :: string where
  "micro_label = ''Latency ('' @ [CHR 0xB5] @ ''s)''"

text \<open>Lines 21-44, given the groups of line 19.\<close>

definition plot_groups :: "(label \<times> real option list) list \<Rightarrow> run" where
  "plot_groups grouped =
     (case hist_loop grouped of
        (hs, Some e) \<Rightarrow> (Figure 10 6 # hs, Raised e)
      | (hs, None) \<Rightarrow>
          (let first_figure = Figure 10 6 # hs @
                 [Xlabel micro_label, Ylabel ''Frequency'',
                  Title ''Cache Latency Distribution: LocalLRU vs LockCache'',
                  Legend, Grid True, Show]
           in case boxplot grouped of
                Inl e \<Rightarrow> (first_figure @ [Figure 8 5], Raised e)
              | Inr box \<Rightarrow>
                  (first_figure @
                   [Figure 8 5, box,
                    Ylabel micro_label, Title ''Latency Boxplot Comparison'',
                    Suptitle '''', Grid True, Show,
                    Print (CHR 0x0A # ''=== Summary Statistics ===''),
                    PrintStats (map (\<lambda>g. (fst g, describe (snd g))) grouped)],
                   Returned)))"

text \<open>
  Lines 18-44, for a frame that has both columns. Rows are grouped by the label column
  whatever its kind. The measurement column is numeric in the spec's data model; what the
  plotting library does with a column of strings is not covered here, and for such a
  frame there is no run (\<open>None\<close>).
\<close>

definition plot_frame :: "frame \<Rightarrow> run option" where
  "plot_frame df =
     (case (getcol df ''cache_type'', getcol df ''latency_us'') of
        (Some kc, Some (NumCol vs)) \<Rightarrow> Some (plot_groups (groupby (label_cells kc) vs))
      | _ \<Rightarrow> None)"

definition plot_results :: "filesystem \<Rightarrow> string \<Rightarrow> run option" where
  "plot_results fs csv_file =
     (if \<not> path_exists fs csv_file then
        Some ([Print (''CSV file '' @ csv_file @ '' not found.'')], Exit 1)
      else
        case read_csv fs csv_file of
          Inl e \<Rightarrow> Some ([], Raised e)
        | Inr df \<Rightarrow>
            if \<not> {''cache_type'', ''latency_us''} \<subseteq> set (columns df) then
              Some ([Print ''CSV missing required columns: cache_type, latency_us''], Exit 1)
            else plot_frame df)"

text \<open>The \<^verbatim>\<open>__main__\<close> block; \<open>argv\<close> is \<^verbatim>\<open>sys.argv\<close>, the script's own name first.\<close>

definition usage :: string where
  "usage = ''Usage: python scripts/plot_results.py <results.csv>''"

definition main :: "filesystem \<Rightarrow> string list \<Rightarrow> run option" where
  "main fs argv =
     (if length argv < 2 then Some ([Print usage], Exit 1)
      else plot_results fs (argv ! 1))"

section \<open>The Fetcher: \<^verbatim>\<open>scripts/fetch_data.py\<close>\<close>

text \<open>
  The Fetcher talks to three things outside itself: the data provider, the file system and
  the console. What the provider answers and what the file system lets through are
  parameters of a run; the directories, the files and the console lines are the state the
  run changes. \<open>'d\<close> is the type of a downloaded table; a file holds what was written
  to it.
\<close>

subsection \<open>Paths and the places they name\<close>

text \<open>\<^verbatim>\<open>os.path.dirname\<close> and \<^verbatim>\<open>os.path.join\<close> (POSIX), on path strings.\<close>

definition dirname :: "string \<Rightarrow> string" where
  "dirname p =
     (let head = rev (dropWhile (\<lambda>c. c \<noteq> CHR ''/'') (rev p)) in
      if head \<noteq> [] \<and> \<not> list_all (\<lambda>c. c = CHR ''/'') head
      then rev (dropWhile (\<lambda>c. c = CHR ''/'') (rev head))
      else head)"

definition join2 :: "string \<Rightarrow> string \<Rightarrow> string" where
  "join2 a b =
     (if b \<noteq> [] \<and> hd b = CHR ''/'' then b
      else if a = [] \<or> last a = CHR ''/'' then a @ b
      else a @ ''/'' @ b)"

definition path_join :: "string \<Rightarrow> string list \<Rightarrow> string" where
  "path_join a ps = foldl join2 a ps"

text \<open>
  The file system does not store path strings: a path names a place, the list of names
  from the root down, and two strings can name the same place. The system walks the
  components of the string, from the root for an absolute path and from the working
  directory otherwise; an empty component and \<^verbatim>\<open>.\<close> stay, \<^verbatim>\<open>..\<close> steps up (and
  stays at the root). Symbolic links are left out.
\<close>

type_synonym place = "string list"

fun split_path :: "string \<Rightarrow> string list" where
  "split_path [] = [[]]"
| "split_path (c # cs) =
     (if c = CHR ''/'' then [] # split_path cs
      else (case split_path cs of [] \<Rightarrow> [[c]] | x # xs \<Rightarrow> (c # x) # xs))"

definition norm_step :: "place \<Rightarrow> string \<Rightarrow> place" where
  "norm_step here c =
     (if c = [] \<or> c = ''.'' then here
      else if c = ''..'' then butlast here
      else here @ [c])"

definition is_abs :: "string \<Rightarrow> bool" where
  "is_abs p = (p \<noteq> [] \<and> hd p = CHR ''/'')"

definition resolve :: "place \<Rightarrow> string \<Rightarrow> place" where
  "resolve wd p = foldl norm_step (if is_abs p then [] else wd) (split_path p)"

subsection \<open>The world of a run\<close>

text \<open>
  A write opens the file for writing, which creates or empties it, and then writes the
  table. It can go through, fail before the file is opened (leaving the file system as
  it was), or fail after, leaving whatever had been written by then.
\<close>

datatype 'd write_result = Written | CannotOpen | Broken 'd

record 'd provider =
  download :: "string \<Rightarrow> string \<Rightarrow> string \<Rightarrow> py_error + 'd"
  creatable :: "place \<Rightarrow> bool"
  writes :: "place \<Rightarrow> 'd \<Rightarrow> 'd write_result"

record 'd world =
  cwd :: place
  dirs :: "place set"
  files :: "place \<rightharpoonup> 'd"
  stdout :: "string list"

text \<open>
  \<^verbatim>\<open>os.makedirs(p, exist_ok=True)\<close>: nothing to do when the directory is there; a
  non-directory at that place is an error even with \<^verbatim>\<open>exist_ok\<close>.
\<close>

definition makedirs :: "'d provider \<Rightarrow> string \<Rightarrow> 'd world \<Rightarrow> py_error + 'd world" where
  "makedirs env p w =
     (let q = resolve (cwd w) p in
      if q \<in> dirs w then Inr w
      else if files w q \<noteq> None then Inl FileExistsError
      else if creatable env q then Inr (w\<lparr>dirs := insert q (dirs w)\<rparr>)
      else Inl OSError)"

text \<open>
  \<^verbatim>\<open>data.to_csv(filepath)\<close>. A raise comes with the world it leaves behind.
\<close>

definition to_csv ::
    "'d provider \<Rightarrow> 'd \<Rightarrow> string \<Rightarrow> 'd world \<Rightarrow> (py_error \<times> 'd world) + 'd world" where
  "to_csv env d p w =
     (let q = resolve (cwd w) p in
      case writes env q d of
        Written \<Rightarrow> Inr (w\<lparr>files := (files w)(q \<mapsto> d)\<rparr>)
      | CannotOpen \<Rightarrow> Inl (OSError, w)
      | Broken part \<Rightarrow> Inl (OSError, w\<lparr>files := (files w)(q \<mapsto> part)\<rparr>))"

definition print_line :: "string \<Rightarrow> 'd world \<Rightarrow> 'd world" where
  "print_line l w = w\<lparr>stdout := stdout w @ [l]\<rparr>"

subsection \<open>The script\<close>

definition symbols :: "string list" where
  "symbols = [''AAPL'', ''MSFT'', ''GOOG'', ''TSLA'']"

definition file_path :: "string \<Rightarrow> string \<Rightarrow> string" where
  "file_path base_path symb = path_join base_path [symb @ ''.csv'']"

text \<open>The loop of lines 10-14; an exception ends it where it is raised.\<close>

fun fetch_loop :: "'d provider \<Rightarrow> string \<Rightarrow> string list \<Rightarrow> 'd world \<Rightarrow> 'd world \<times> outcome" where
  "fetch_loop env base_path [] w = (w, Returned)"
| "fetch_loop env base_path (symb # syms) w =
     (case download env symb ''5d'' ''1m'' of
        Inl e \<Rightarrow> (w, Raised e)
      | Inr d \<Rightarrow>
          (let filepath = file_path base_path symb in
           case to_csv env d filepath w of
             Inl (e, w') \<Rightarrow> (w', Raised e)
           | Inr w' \<Rightarrow> fetch_loop env base_path syms (print_line (''Saved '' @ filepath) w')))"

definition base_path_of :: "string \<Rightarrow> string" where
  "base_path_of file = path_join (dirname file) [''..'', ''data'']"

text \<open>The whole script; \<open>file\<close> is \<^verbatim>\<open>__file__\<close>.\<close>

definition fetch_data :: "'d provider \<Rightarrow> string \<Rightarrow> 'd world \<Rightarrow> 'd world \<times> outcome" where
  "fetch_data env file w =
     (let base_path = base_path_of file in
      case makedirs env base_path w of
        Inl e \<Rightarrow> (w, Raised e)
      | Inr w1 \<Rightarrow> fetch_loop env base_path symbols w1)"

section \<open>Reading a run\<close>

text \<open>The statistics frames a run printed, and views of their blocks.\<close>

fun stats_of_event :: "event \<Rightarrow> (label \<times> stats) list list" where
  "stats_of_event (PrintStats blocks) = [blocks]"
| "stats_of_event _ = []"

definition printed_stats :: "event list \<Rightarrow> (label \<times> stats) list list" where
  "printed_stats evs = concat (map stats_of_event evs)"

definition stats_output :: "run \<Rightarrow> (label \<times> stats) list list" where
  "stats_output r = printed_stats (fst r)"

definition stats_of :: "run option \<Rightarrow> (label \<times> stats) list list option" where
  "stats_of r = map_option stats_output r"


definition block_means :: "(label \<times> stats) list \<Rightarrow> (label \<times> nat \<times> real option) list" where
  "block_means blocks = map (\<lambda>b. (fst b, s_count (snd b), s_mean (snd b))) blocks"


definition present_rows :: "'k \<Rightarrow> 'k option list \<Rightarrow> 'v option list \<Rightarrow> nat" where
  "present_rows k ks vs = length (filter (\<lambda>r. fst r = Some k \<and> snd r \<noteq> None) (zip ks vs))"


text \<open>The five order statistics of a block are numbers, and in order.\<close>

definition ordered_stats :: "stats \<Rightarrow> bool" where
  "ordered_stats s =
     (case (s_min s, s_q25 s, s_q50 s, s_q75 s, s_max s) of
        (Some a, Some b, Some c, Some d, Some e) \<Rightarrow> a \<le> b \<and> b \<le> c \<and> c \<le> d \<and> d \<le> e
      | _ \<Rightarrow> False)"

text \<open>A group whose sample \<open>hist\<close> accepts.\<close>

definition hist_ok :: "(label \<times> real option list) \<Rightarrow> bool" where
  "hist_ok g = (snd g = [] \<or> dropna (snd g) \<noteq> [])"

text \<open>
  What the provider returned for a symbol, if it returned; what writing that to a place
  comes to; a confirmation line; the place \<^verbatim>\<open><project_root>/data/<SYMBOL>.csv\<close>.
\<close>

definition fetched :: "'d provider \<Rightarrow> string \<Rightarrow> 'd option" where
  "fetched env s = (case download env s ''5d'' ''1m'' of Inl e \<Rightarrow> None | Inr d \<Rightarrow> Some d)"

definition stored :: "'d provider \<Rightarrow> place \<Rightarrow> string \<Rightarrow> 'd write_result option" where
  "stored env q s = map_option (writes env q) (fetched env s)"

definition saved_line :: "string \<Rightarrow> string \<Rightarrow> string" where
  "saved_line base_path s = ''Saved '' @ file_path base_path s"

definition data_dir :: "place \<Rightarrow> place" where
  "data_dir project = project @ [''data'']"

definition data_file :: "place \<Rightarrow> string \<Rightarrow> place" where
  "data_file project s = project @ [''data'', s @ ''.csv'']"

section \<open>Concrete inputs\<close>

text \<open>A file system holding one table.\<close>

definition single_file :: "string \<Rightarrow> frame \<Rightarrow> filesystem" where
  "single_file p df = (\<lambda>q. if q = p then Some (CsvFile df) else None)"

text \<open>The table of the spec's example.\<close>

definition example_table :: frame where
  "example_table =
     [(''cache_type'', StrCol [Some ''LocalLRU'', Some ''LocalLRU'', Some ''LockCache'']),
      (''latency_us'', NumCol [Some 12.5, Some 13.0, Some 50.0])]"

text \<open>The same measurements among other columns.\<close>

definition example_wide :: frame where
  "example_wide =
     [(''run_id'', NumCol [Some 1, Some 2, Some 3]),
      (''cache_type'', StrCol [Some ''LocalLRU'', Some ''LocalLRU'', Some ''LockCache'']),
      (''host'', StrCol [Some ''a'', None, Some ''b'']),
      (''latency_us'', NumCol [Some 12.5, Some 13.0, Some 50.0])]"

text \<open>A table without the measurement column.\<close>

definition example_no_latency :: frame where
  "example_no_latency =
     [(''cache_type'', StrCol [Some ''LocalLRU'']), (''latency_ms'', NumCol [Some 1])]"


text \<open>
  Numbered cache types: five rows of type 1 with the measurements 8, 1, none, 4, 2, and
  one row of type 2.
\<close>

definition numbered_table :: frame where
  "numbered_table =
     [(''cache_type'', NumCol [Some 1, Some 1, Some 1, Some 1, Some 1, Some 2]),
      (''latency_us'', NumCol [Some 8, Some 1, None, Some 4, Some 2, Some 3])]"


definition gap_provider :: "string provider" where
  "gap_provider =
     \<lparr> download = (\<lambda>s period interval.
          if s = ''GOOG'' then Inl DownloadError else Inr (''prices of '' @ s)),
       creatable = (\<lambda>q. True), writes = (\<lambda>q d. Written) \<rparr>"

definition torn_provider :: "string provider" where
  "torn_provider =
     \<lparr> download = (\<lambda>s period interval. Inr (''prices of '' @ s)),
       creatable = (\<lambda>q. True),
       writes = (\<lambda>q d. if q = [''repo'', ''data'', ''GOOG.csv''] then Broken (take 6 d) else Written) \<rparr>"

definition fresh_world :: "string world" where
  "fresh_world = \<lparr> cwd = [''home''], dirs = {}, files = Map.empty, stdout = [] \<rparr>"

section \<open>Facts about \<^verbatim>\<open>describe\<close>\<close>

lemma set_dropna: "set (dropna xs) = {x. Some x \<in> set xs}"
  by (induction xs rule: dropna.induct) auto

lemma length_dropna: "length (dropna xs) = length (filter (\<lambda>x. x \<noteq> None) xs)"
  by (induction xs rule: dropna.induct) auto

lemma count_describe: "s_count (describe x) = length (dropna x)"
  by (simp add: describe_def Let_def)

text \<open>
  The interpolated value lies between the two ranks it is taken from, so it grows with the
  fractional rank.
\<close>

lemma lerp_at_bounds:
  assumes srt: "sorted s" and ne: "s \<noteq> []" and h0: "0 \<le> h" and hn: "h \<le> real (length s - 1)"
  shows "s ! nat \<lfloor>h\<rfloor> \<le> lerp_at s h"
    and "lerp_at s h \<le> s ! min (nat \<lfloor>h\<rfloor> + 1) (length s - 1)"
proof -
  define lo where "lo = nat \<lfloor>h\<rfloor>"
  define hi where "hi = min (lo + 1) (length s - 1)"
  define t where "t = h - real lo"
  have lo_real: "real lo = of_int \<lfloor>h\<rfloor>"
    using h0 by (simp add: lo_def)
  have t0: "0 \<le> t" and t1: "t \<le> 1"
    unfolding t_def lo_real by linarith+
  have "lo \<le> length s - 1"
    using hn h0 unfolding lo_def by linarith
  moreover have "0 < length s" using ne by simp
  ultimately have "lo \<le> hi" and "hi < length s"
    unfolding hi_def by linarith+
  then have le: "s ! lo \<le> s ! hi"
    using srt by (simp add: sorted_nth_mono)
  have eq: "lerp_at s h = s ! lo + (s ! hi - s ! lo) * t"
    by (simp add: lerp_at_def Let_def lo_def hi_def t_def)
  have "0 \<le> (s ! hi - s ! lo) * t"
    using le t0 by simp
  then show "s ! nat \<lfloor>h\<rfloor> \<le> lerp_at s h"
    unfolding eq lo_def[symmetric] by linarith
  have "(s ! hi - s ! lo) * t \<le> (s ! hi - s ! lo) * 1"
    using le t1 by (intro mult_left_mono) auto
  then have "(s ! hi - s ! lo) * t \<le> s ! hi - s ! lo"
    by simp
  then show "lerp_at s h \<le> s ! min (nat \<lfloor>h\<rfloor> + 1) (length s - 1)"
    unfolding eq lo_def[symmetric] hi_def[symmetric] by linarith
qed

lemma lerp_at_mono:
  assumes srt: "sorted s" and ne: "s \<noteq> []" and h0: "0 \<le> h1" and le12: "h1 \<le> h2"
    and hn: "h2 \<le> real (length s - 1)"
  shows "lerp_at s h1 \<le> lerp_at s h2"
proof (cases "nat \<lfloor>h1\<rfloor> = nat \<lfloor>h2\<rfloor>")
  case True
  define lo where "lo = nat \<lfloor>h1\<rfloor>"
  define hi where "hi = min (lo + 1) (length s - 1)"
  have lo_le: "lo \<le> length s - 1"
    using hn h0 le12 unfolding lo_def by linarith
  moreover have "0 < length s" using ne by simp
  ultimately have "lo \<le> hi" "hi < length s"
    unfolding hi_def by linarith+
  then have le: "s ! lo \<le> s ! hi" using srt by (simp add: sorted_nth_mono)
  have e1: "lerp_at s h1 = s ! lo + (s ! hi - s ! lo) * (h1 - real lo)"
    by (simp add: lerp_at_def Let_def lo_def hi_def)
  have e2: "lerp_at s h2 = s ! lo + (s ! hi - s ! lo) * (h2 - real lo)"
    using True by (simp add: lerp_at_def Let_def lo_def hi_def)
  have "(s ! hi - s ! lo) * (h1 - real lo) \<le> (s ! hi - s ! lo) * (h2 - real lo)"
    using le le12 by (intro mult_left_mono) auto
  then show ?thesis unfolding e1 e2 by simp
next
  case False
  have "nat \<lfloor>h1\<rfloor> \<le> nat \<lfloor>h2\<rfloor>"
    using le12 by (simp add: floor_mono nat_mono)
  with False have lt: "nat \<lfloor>h1\<rfloor> + 1 \<le> nat \<lfloor>h2\<rfloor>" by simp
  have lo2: "nat \<lfloor>h2\<rfloor> \<le> length s - 1"
    using hn h0 le12 by linarith
  then have "nat \<lfloor>h2\<rfloor> < length s" using ne by (cases s) auto
  have "lerp_at s h1 \<le> s ! min (nat \<lfloor>h1\<rfloor> + 1) (length s - 1)"
    using lerp_at_bounds(2)[OF srt ne h0] le12 hn by simp
  also have "\<dots> \<le> s ! nat \<lfloor>h2\<rfloor>"
    using srt lt \<open>nat \<lfloor>h2\<rfloor> < length s\<close> by (intro sorted_nth_mono) auto
  also have "\<dots> \<le> lerp_at s h2"
    using lerp_at_bounds(1)[OF srt ne _ hn] h0 le12 by simp
  finally show ?thesis .
qed

lemma lerp_at_first: "lerp_at s 0 = s ! 0"
  by (simp add: lerp_at_def)

lemma lerp_at_last: "lerp_at s (real (length s - 1)) = s ! (length s - 1)"
  by (simp add: lerp_at_def)

lemma sorted_Min_nth:
  assumes "sorted s" and "s \<noteq> []"
  shows "Min (set s) = s ! 0"
proof (rule Min_eqI)
  show "finite (set s)" by simp
  show "s ! 0 \<in> set s" using assms(2) by simp
  fix y assume "y \<in> set s"
  then obtain i where "i < length s" "y = s ! i"
    by (auto simp: in_set_conv_nth)
  then show "s ! 0 \<le> y"
    using assms(1) by (simp add: sorted_nth_mono)
qed

lemma sorted_Max_nth:
  assumes "sorted s" and "s \<noteq> []"
  shows "Max (set s) = s ! (length s - 1)"
proof (rule Max_eqI)
  show "finite (set s)" by simp
  show "s ! (length s - 1) \<in> set s" using assms(2) by simp
  fix y assume "y \<in> set s"
  then obtain i where "i < length s" "y = s ! i"
    by (auto simp: in_set_conv_nth)
  then show "y \<le> s ! (length s - 1)"
    using assms(1) by (simp add: sorted_nth_mono)
qed

lemma sort_eq_Nil: "sort xs = [] \<longleftrightarrow> xs = []"
  by (metis length_0_conv length_sort)

lemma Min_sort_nth:
  assumes "xs \<noteq> []"
  shows "Min (set xs) = sort xs ! 0"
proof -
  have "Min (set (sort xs)) = sort xs ! 0"
    using assms by (intro sorted_Min_nth) (simp_all add: sort_eq_Nil)
  then show ?thesis by simp
qed

lemma Max_sort_nth:
  assumes "xs \<noteq> []"
  shows "Max (set xs) = sort xs ! (length xs - 1)"
proof -
  have "Max (set (sort xs)) = sort xs ! (length (sort xs) - 1)"
    using assms by (intro sorted_Max_nth) (simp_all add: sort_eq_Nil)
  then show ?thesis by simp
qed

text \<open>A sample with at least one value has its five order statistics in order.\<close>

lemma describe_ordered:
  assumes "dropna x \<noteq> []"
  shows "ordered_stats (describe x)"
proof -
  define xs where "xs = dropna x"
  define s where "s = sort xs"
  define n where "n = real (length s - 1)"
  have ne: "s \<noteq> []" and srt: "sorted s" and len: "length s = length xs"
    using assms by (simp_all add: s_def xs_def sort_eq_Nil)
  have n0: "0 \<le> n" by (simp add: n_def)
  have a: "lerp_at s 0 \<le> lerp_at s (1/4 * n)"
    using n0 by (intro lerp_at_mono[OF srt ne]) (auto simp: n_def)
  have b: "lerp_at s (1/4 * n) \<le> lerp_at s (1/2 * n)"
    using n0 by (intro lerp_at_mono[OF srt ne]) (auto simp: n_def)
  have c: "lerp_at s (1/2 * n) \<le> lerp_at s (3/4 * n)"
    using n0 by (intro lerp_at_mono[OF srt ne]) (auto simp: n_def)
  have d: "lerp_at s (3/4 * n) \<le> lerp_at s n"
    using n0 by (intro lerp_at_mono[OF srt ne]) (auto simp: n_def)
  have mn: "Min (set xs) = lerp_at s 0"
    using assms by (simp add: lerp_at_first Min_sort_nth s_def xs_def)
  have mx: "Max (set xs) = lerp_at s n"
    using assms unfolding n_def lerp_at_last by (simp add: Max_sort_nth s_def xs_def)
  have q: "quantile xs q = Some (lerp_at s (q * n))" for q
    using assms by (simp add: quantile_def xs_def s_def n_def)
  show ?thesis
    unfolding ordered_stats_def describe_def Let_def xs_def[symmetric]
    using assms a b c d
    by (simp add: min_of_def max_of_def q mn mx xs_def[symmetric])
qed

section \<open>Facts about grouping and the Plotter's run\<close>

lemma dropna_rows_of: "length (dropna (rows_of k ks vs)) = present_rows k ks vs"
  by (simp add: rows_of_def present_rows_def length_dropna filter_map o_def)

lemma set_group_keys: "set (group_keys ks) = set (dropna ks)"
  by (simp add: group_keys_def)



text \<open>In a table every group has a row.\<close>

lemma rows_of_nonempty:
  assumes "k \<in> set (dropna ks)" and "length ks = length vs"
  shows "rows_of k ks vs \<noteq> []"
proof -
  from assms(1) have "Some k \<in> set ks" by (simp add: set_dropna)
  then obtain i where i: "i < length ks" "ks ! i = Some k"
    by (auto simp: in_set_conv_nth)
  then have "(Some k, vs ! i) \<in> set (zip ks vs)"
    using assms(2) by (auto simp: set_zip intro!: exI[of _ i])
  then have "(Some k, vs ! i) \<in> set (filter (\<lambda>r. fst r = Some k) (zip ks vs))"
    by simp
  then show ?thesis
    unfolding rows_of_def by (metis empty_iff list.set(1) map_is_Nil_conv)
qed

lemma groups_ok_iff:
  assumes "length ks = length vs"
  shows "list_all hist_ok (groupby ks vs) \<longleftrightarrow>
         list_all (\<lambda>k. 0 < present_rows k ks vs) (dropna ks)"
proof -
  have "hist_ok (k, rows_of k ks vs) \<longleftrightarrow> 0 < present_rows k ks vs"
    if "k \<in> set (dropna ks)" for k
    using rows_of_nonempty [OF that assms]
    by (simp add: hist_ok_def dropna_rows_of [symmetric])
  then show ?thesis
    by (auto simp: groupby_def list_all_iff set_group_keys)
qed



lemma length_label_cells: "length (label_cells c) = col_length c"
  by (simp add: label_cells_def col_length_def split: column.splits)

lemma rectangular_columns:
  assumes "rectangular df"
    and "getcol df a = Some kc" and "getcol df b = Some (NumCol vs)"
  shows "length (label_cells kc) = length vs"
proof -
  have "(a, kc) \<in> set df" and "(b, NumCol vs) \<in> set df"
    using assms(2,3) by (auto simp: getcol_def dest: map_of_SomeD)
  then have "col_length kc = col_length (NumCol vs)"
    using assms(1) by (fastforce simp: rectangular_def)
  then show ?thesis
    by (simp add: length_label_cells col_length_def)
qed

text \<open>The histogram loop finishes exactly when \<open>hist\<close> accepts every group.\<close>

lemma hist_loop_ok:
  "list_all hist_ok gs \<Longrightarrow> hist_loop gs = (map (\<lambda>g. Hist (snd g) 50 (fst g)) gs, None)"
  by (induction gs rule: hist_loop.induct) (auto simp: hist_def hist_ok_def)

lemma hist_loop_fail:
  "\<not> list_all hist_ok gs \<Longrightarrow>
     \<exists>hs. hist_loop gs = (hs, Some ValueError) \<and> printed_stats hs = []"
  by (induction gs rule: hist_loop.induct)
     (auto simp: hist_def hist_ok_def printed_stats_def split: prod.splits)

lemma printed_stats_Nil: "printed_stats [] = []"
  by (simp add: printed_stats_def)

lemma printed_stats_Cons: "printed_stats (e # es) = stats_of_event e @ printed_stats es"
  by (simp add: printed_stats_def)

lemma printed_stats_append: "printed_stats (xs @ ys) = printed_stats xs @ printed_stats ys"
  by (simp add: printed_stats_def)

lemma printed_stats_hists: "printed_stats (map (\<lambda>g. Hist (snd g) 50 (fst g)) gs) = []"
  by (induction gs) (auto simp: printed_stats_def)

text \<open>
  The run over the groups: with a group to draw and every sample accepted it returns,
  having printed one frame with a block per group; otherwise it raises before the
  statistics.
\<close>

lemma plot_groups_run:
  "plot_groups gs =
     (evs, out) \<Longrightarrow>
   (if gs \<noteq> [] \<and> list_all hist_ok gs
    then printed_stats evs = [map (\<lambda>g. (fst g, describe (snd g))) gs] \<and> out = Returned
    else printed_stats evs = [] \<and> out = Raised ValueError)"
proof (cases "list_all hist_ok gs")
  case True
  assume "plot_groups gs = (evs, out)"
  then show ?thesis
    using True printed_stats_hists [of gs]
    by (auto simp: plot_groups_def hist_loop_ok boxplot_def Let_def
        printed_stats_Nil printed_stats_Cons printed_stats_append)
next
  case False
  assume run: "plot_groups gs = (evs, out)"
  from hist_loop_fail [OF False] obtain hs where
    "hist_loop gs = (hs, Some ValueError)" "printed_stats hs = []"
    by blast
  then show ?thesis
    using run False
    by (auto simp: plot_groups_def printed_stats_Nil printed_stats_Cons)
qed

lemma has_columns:
  "{''cache_type'', ''latency_us''} \<subseteq> set (columns df) \<longleftrightarrow>
     getcol df ''cache_type'' \<noteq> None \<and> getcol df ''latency_us'' \<noteq> None"
  by (simp add: columns_def getcol_def map_of_eq_None_iff)

lemma plot_results_file:
  "fs path = Some (CsvFile df) \<Longrightarrow>
   plot_results fs path =
     (if getcol df ''cache_type'' \<noteq> None \<and> getcol df ''latency_us'' \<noteq> None
      then plot_frame df
      else Some ([Print ''CSV missing required columns: cache_type, latency_us''], Exit 1))"
  unfolding plot_results_def has_columns by (simp add: path_exists_def read_csv_def)

section \<open>Facts about paths\<close>

lemma split_path_nonempty: "split_path p \<noteq> []"
  by (induction p) (auto split: list.splits)

lemma split_path_append: "split_path (a @ CHR ''/'' # b) = split_path a @ split_path b"
proof (induction a)
  case Nil
  show ?case by simp
next
  case (Cons c a)
  obtain x xs where "split_path a = x # xs"
    using split_path_nonempty [of a] by (cases "split_path a") auto
  with Cons show ?case by simp
qed

lemma resolve_empty: "resolve wd [] = wd"
  by (simp add: resolve_def is_abs_def norm_step_def)

lemma is_abs_append: "a \<noteq> [] \<Longrightarrow> is_abs (a @ b) = is_abs a"
  by (cases a) (simp_all add: is_abs_def)

text \<open>Joining a relative path \<open>x\<close> to \<open>d\<close> walks \<open>x\<close> from the place of \<open>d\<close>.\<close>

lemma resolve_join2:
  assumes "\<not> is_abs x"
  shows "resolve wd (join2 d x) = foldl norm_step (resolve wd d) (split_path x)"
proof (cases "d = []")
  case True
  then have "join2 d x = x"
    using assms by (auto simp: join2_def is_abs_def)
  then show ?thesis
    using True assms by (simp add: resolve_empty) (simp add: resolve_def)
next
  case False
  show ?thesis
  proof (cases "last d = CHR ''/''")
    case True
    then obtain d' where d: "d = d' @ ''/''"
      using False by (metis append_butlast_last_id)
    have j: "join2 d x = d' @ CHR ''/'' # x"
      using assms False True by (auto simp: join2_def is_abs_def d)
    have "split_path d = split_path d' @ [[]]"
      using split_path_append [of d' "[]"] by (simp add: d)
    moreover have "is_abs (d' @ CHR ''/'' # x) = is_abs d"
      using is_abs_append [OF False, of x] by (simp add: d)
    ultimately show ?thesis
      unfolding j by (simp add: resolve_def split_path_append norm_step_def)
  next
    case nosep: False
    have j: "join2 d x = d @ CHR ''/'' # x"
      using assms False nosep by (auto simp: join2_def is_abs_def)
    have "is_abs (d @ CHR ''/'' # x) = is_abs d"
      using is_abs_append [OF False] .
    then show ?thesis
      unfolding j by (simp add: resolve_def split_path_append)
  qed
qed

text \<open>
  With the script in the directory \<^verbatim>\<open>scripts\<close> of the project, \<^verbatim>\<open>base_path\<close> names
  the project's \<^verbatim>\<open>data\<close> directory and \<^verbatim>\<open>filepath\<close> names the symbol's file in it,
  whatever string \<^verbatim>\<open>__file__\<close> is.
\<close>

lemma resolve_base_path:
  assumes "resolve wd (dirname p) = project @ [''scripts'']"
  shows "resolve wd (base_path_of p) = data_dir project"
proof -
  have "resolve wd (join2 (dirname p) ''..'') = project"
    using resolve_join2 [of "''..''" wd "dirname p"] assms
    by (simp add: is_abs_def norm_step_def)
  then have "resolve wd (join2 (join2 (dirname p) ''..'') ''data'') = project @ [''data'']"
    using resolve_join2 [of "''data''" wd "join2 (dirname p) ''..''"]
    by (simp add: is_abs_def norm_step_def)
  then show ?thesis
    by (simp add: base_path_of_def path_join_def data_dir_def)
qed

lemma split_symbol_file:
  assumes "s \<in> set symbols"
  shows "split_path (s @ ''.csv'') = [s @ ''.csv''] \<and> \<not> is_abs (s @ ''.csv'') \<and>
         norm_step here (s @ ''.csv'') = here @ [s @ ''.csv'']"
  using assms by (auto simp: symbols_def is_abs_def norm_step_def)

lemma resolve_file_path:
  assumes "s \<in> set symbols" and "resolve wd (dirname p) = project @ [''scripts'']"
  shows "resolve wd (file_path (base_path_of p) s) = data_file project s"
proof -
  note sp = split_symbol_file [OF assms(1)]
  have "resolve wd (join2 (base_path_of p) (s @ ''.csv'')) =
        foldl norm_step (data_dir project) (split_path (s @ ''.csv''))"
    using resolve_join2 [of "s @ ''.csv''" wd "base_path_of p"] sp
    by (simp add: resolve_base_path [OF assms(2)])
  also have "\<dots> = data_dir project @ [s @ ''.csv'']"
    using sp [of "data_dir project"] by simp
  finally show ?thesis
    by (simp add: file_path_def path_join_def data_file_def data_dir_def)
qed

lemma data_file_inj: "data_file project s = data_file project t \<longleftrightarrow> s = t"
  by (simp add: data_file_def)

lemma distinct_symbols: "distinct symbols"
  by (simp add: symbols_def)

lemma distinct_data_files: "distinct xs \<Longrightarrow> distinct (map (data_file project) xs)"
  by (simp add: distinct_map inj_on_def data_file_inj)

section \<open>Facts about the Fetcher's loop\<close>

lemma stored_Written:
  "stored env q s = Some Written \<longleftrightarrow> (\<exists>d. download env s ''5d'' ''1m'' = Inr d \<and> writes env q d = Written)"
  by (auto simp: stored_def fetched_def split: sum.splits)

text \<open>
  A prefix of symbols that all download and write: the loop passes it, printing one line
  and writing one file per symbol, and touching nothing else.
\<close>

lemma fetch_loop_prefix:
  assumes "\<forall>s\<in>set pre. stored env (resolve (cwd w) (file_path b s)) s = Some Written"
  shows "\<exists>w'. fetch_loop env b (pre @ rest) w = fetch_loop env b rest w' \<and>
            cwd w' = cwd w \<and>
            stdout w' = stdout w @ map (saved_line b) pre \<and>
            dirs w' = dirs w \<and>
            (\<forall>q. q \<notin> (\<lambda>s. resolve (cwd w) (file_path b s)) ` set pre \<longrightarrow> files w' q = files w q) \<and>
            (distinct (map (\<lambda>s. resolve (cwd w) (file_path b s)) pre) \<longrightarrow>
               (\<forall>s\<in>set pre. files w' (resolve (cwd w) (file_path b s)) = fetched env s))"
  using assms
proof (induction pre arbitrary: w)
  case Nil
  show ?case by (rule exI [of _ w]) simp
next
  case (Cons a pre)
  let ?q = "resolve (cwd w) (file_path b a)"
  from Cons.prems obtain d where d: "download env a ''5d'' ''1m'' = Inr d"
    and wr: "writes env ?q d = Written"
    by (auto simp: stored_Written)
  define w1 where
    "w1 = print_line (''Saved '' @ file_path b a) (w\<lparr>files := (files w)(?q \<mapsto> d)\<rparr>)"
  have w1_out: "stdout w1 = stdout w @ [saved_line b a]"
    and w1_dirs: "dirs w1 = dirs w"
    and w1_cwd: "cwd w1 = cwd w"
    and w1_files: "files w1 = (files w)(?q \<mapsto> d)"
    by (simp_all add: w1_def print_line_def saved_line_def)
  have step: "fetch_loop env b ((a # pre) @ rest) w = fetch_loop env b (pre @ rest) w1"
    using d wr by (simp add: to_csv_def w1_def Let_def)
  from Cons.prems
  have "\<forall>s\<in>set pre. stored env (resolve (cwd w1) (file_path b s)) s = Some Written"
    by (simp add: w1_cwd)
  from Cons.IH [OF this] obtain w' where
    run: "fetch_loop env b (pre @ rest) w1 = fetch_loop env b rest w'"
    and cw: "cwd w' = cwd w1"
    and out: "stdout w' = stdout w1 @ map (saved_line b) pre"
    and dr: "dirs w' = dirs w1"
    and other: "\<forall>q. q \<notin> (\<lambda>s. resolve (cwd w) (file_path b s)) ` set pre \<longrightarrow> files w' q = files w1 q"
    and mine: "distinct (map (\<lambda>s. resolve (cwd w) (file_path b s)) pre) \<longrightarrow>
                 (\<forall>s\<in>set pre. files w' (resolve (cwd w) (file_path b s)) = fetched env s)"
    unfolding w1_cwd by blast
  have fa: "fetched env a = Some d"
    using d by (simp add: fetched_def)
  show ?case
  proof (intro exI [of _ w'] conjI)
    show "fetch_loop env b ((a # pre) @ rest) w = fetch_loop env b rest w'"
      using step run by simp
    show "cwd w' = cwd w"
      using cw w1_cwd by simp
    show "stdout w' = stdout w @ map (saved_line b) (a # pre)"
      using out w1_out by simp
    show "dirs w' = dirs w"
      using dr w1_dirs by simp
    show "\<forall>q. q \<notin> (\<lambda>s. resolve (cwd w) (file_path b s)) ` set (a # pre) \<longrightarrow> files w' q = files w q"
      using other w1_files by auto
    show "distinct (map (\<lambda>s. resolve (cwd w) (file_path b s)) (a # pre)) \<longrightarrow>
            (\<forall>s\<in>set (a # pre). files w' (resolve (cwd w) (file_path b s)) = fetched env s)"
      using other mine w1_files fa by auto
  qed
qed

text \<open>
  A symbol whose download or write raises stops the loop where it stands. Only a write
  that breaks off after the file was opened leaves a trace.
\<close>

lemma fetch_loop_raise:
  assumes "stored env (resolve (cwd w) (file_path b s)) s \<noteq> Some Written"
  shows "\<exists>w' e. fetch_loop env b (s # post) w = (w', Raised e) \<and>
           stdout w' = stdout w \<and> dirs w' = dirs w \<and>
           (\<forall>q. q \<noteq> resolve (cwd w) (file_path b s) \<longrightarrow> files w' q = files w q) \<and>
           files w' (resolve (cwd w) (file_path b s)) =
             (case stored env (resolve (cwd w) (file_path b s)) s of
                Some (Broken part) \<Rightarrow> Some part
              | _ \<Rightarrow> files w (resolve (cwd w) (file_path b s)))"
proof (cases "download env s ''5d'' ''1m''")
  case (Inl e)
  then show ?thesis
    by (simp add: stored_def fetched_def)
next
  case (Inr d)
  then have st: "stored env (resolve (cwd w) (file_path b s)) s =
      Some (writes env (resolve (cwd w) (file_path b s)) d)"
    by (simp add: stored_def fetched_def)
  show ?thesis
  proof (cases "writes env (resolve (cwd w) (file_path b s)) d")
    case Written
    then show ?thesis using assms st by simp
  next
    case CannotOpen
    then show ?thesis using Inr st by (simp add: to_csv_def Let_def)
  next
    case (Broken part)
    then show ?thesis using Inr st by (simp add: to_csv_def Let_def)
  qed
qed

lemma makedirs_ok:
  assumes "resolve (cwd w) b \<in> dirs w \<or>
           (files w (resolve (cwd w) b) = None \<and> creatable env (resolve (cwd w) b))"
  shows "\<exists>w1. makedirs env b w = Inr w1 \<and> dirs w1 = insert (resolve (cwd w) b) (dirs w) \<and>
              files w1 = files w \<and> stdout w1 = stdout w \<and> cwd w1 = cwd w"
  using assms by (auto simp: makedirs_def Let_def insert_absorb)

section \<open>The Plotter's early exits\<close>

text \<open>
  Claim C2. A path that names nothing: the run is one console line, which contains the
  path, and \<^verbatim>\<open>sys.exit(1)\<close>; nothing is loaded, drawn or summarised. The same when
  the script is started with that path as its argument.
\<close>

theorem C2_missing_file:
  "fs path = None \<Longrightarrow>
     plot_results fs path = Some ([Print (''CSV file '' @ path @ '' not found.'')], Exit 1) \<and>
     main fs [prog, path] = Some ([Print (''CSV file '' @ path @ '' not found.'')], Exit 1) \<and>
     exit_status (Exit 1) = 1"
  by (simp add: plot_results_def path_exists_def main_def exit_status_def)

theorem C2_missing_file_witness:
  "main (single_file ''a.csv'' example_table) [''plot_results.py'', ''b.csv'']
     = Some ([Print ''CSV file b.csv not found.''], Exit 1)"
  using C2_missing_file [of "single_file ''a.csv'' example_table" "''b.csv''" "''plot_results.py''"]
  by (simp add: single_file_def)

text \<open>
  Claim C3. A table that lacks \<^verbatim>\<open>cache_type\<close>, or \<^verbatim>\<open>latency_us\<close>, or both: the
  run is one console line naming both required columns, and \<^verbatim>\<open>sys.exit(1)\<close>; no
  plotting call is made.
\<close>

theorem C3_missing_column:
  "fs path = Some (CsvFile df) \<Longrightarrow>
   ''cache_type'' \<notin> set (columns df) \<or> ''latency_us'' \<notin> set (columns df) \<Longrightarrow>
     plot_results fs path =
       Some ([Print ''CSV missing required columns: cache_type, latency_us''], Exit 1) \<and>
     exit_status (Exit 1) = 1"
  by (auto simp add: plot_results_def path_exists_def read_csv_def exit_status_def)

theorem C3_missing_column_witness:
  "plot_results (single_file ''r.csv'' example_no_latency) ''r.csv'' =
     Some ([Print ''CSV missing required columns: cache_type, latency_us''], Exit 1)"
  using C3_missing_column [of "single_file ''r.csv'' example_no_latency" "''r.csv''" example_no_latency]
  by (simp add: single_file_def example_no_latency_def columns_def)

text \<open>
  Claim C4. Started with no argument (\<^verbatim>\<open>sys.argv\<close> holds the script's name only),
  the Plotter prints the usage line
  \<^verbatim>\<open>Usage: python scripts/plot_results.py <results.csv>\<close> and exits with status 1; the
  run has no other event, so no figure and no statistics.
\<close>

theorem C4_no_argument:
  "main fs [prog] =
     Some ([Print ''Usage: python scripts/plot_results.py <results.csv>''], Exit 1) \<and>
   exit_status (Exit 1) = 1"
  by (simp add: main_def usage_def exit_status_def)

text \<open>
  Claim C10. Started with two or more arguments, the Plotter raises no complaint about
  their number: the run is that of \<^verbatim>\<open>plot_results\<close> on the first argument, the same
  as when the first argument is given alone.
\<close>

theorem C10_extra_arguments_ignored:
  "main fs (prog # csv_file # others) = plot_results fs csv_file \<and>
   main fs (prog # csv_file # others) = main fs [prog, csv_file]"
  by (simp add: main_def)

section \<open>The Plotter's statistics\<close>

text \<open>
  Claim C6. For the table with rows (LocalLRU, 12.5), (LocalLRU, 13.0), (LockCache, 50.0)
  the run prints one statistics frame with exactly two blocks: LocalLRU with count 2 and
  mean 12.75, LockCache with count 1 and mean 50.0.
\<close>

theorem C6_example_statistics:
  "fs path = Some (CsvFile example_table) \<Longrightarrow>
   map_option (map block_means) (stats_of (plot_results fs path)) =
     Some [[(LStr ''LocalLRU'', 2, Some 12.75), (LStr ''LockCache'', 1, Some 50)]]"
  by (simp add: plot_results_def path_exists_def read_csv_def columns_def
       plot_frame_def plot_groups_def boxplot_def label_cells_def
       example_table_def getcol_def groupby_def rows_of_def group_keys_def
       hist_def stats_of_def stats_output_def printed_stats_def block_means_def
       describe_def Let_def mean_of_def)

theorem C6_example_statistics_witness:
  "map_option (map block_means)
     (stats_of (plot_results (single_file ''r.csv'' example_table) ''r.csv'')) =
     Some [[(LStr ''LocalLRU'', 2, Some 12.75), (LStr ''LockCache'', 1, Some 50)]]"
  using C6_example_statistics [of "single_file ''r.csv'' example_table" "''r.csv''"]
  by (simp add: single_file_def)




text \<open>
  Claim C5. Every block of a printed statistics frame has min, 25th percentile, median,
  75th percentile and max in that order, and its count is the number of present
  \<^verbatim>\<open>latency_us\<close> cells among the rows of its group. (A group without a single
  measurement never reaches the statistics: \<open>hist\<close> raises on it first.)
\<close>

theorem C5_ordered_statistics:
  assumes csv: "fs path = Some (CsvFile df)"
    and rect: "rectangular df"
    and run: "plot_results fs path = Some r"
    and blocks: "blocks \<in> set (stats_output r)"
    and b: "b \<in> set blocks"
  shows "ordered_stats (snd b) \<and>
         (\<exists>kc vs. getcol df ''cache_type'' = Some kc \<and>
                  getcol df ''latency_us'' = Some (NumCol vs) \<and>
                  s_count (snd b) = present_rows (fst b) (label_cells kc) vs)"
proof -
  have "\<exists>kc vs. getcol df ''cache_type'' = Some kc \<and> getcol df ''latency_us'' = Some (NumCol vs)"
    using run blocks
    by (auto simp: plot_results_file [of fs path df, OF csv] plot_frame_def stats_output_def
        printed_stats_Nil printed_stats_Cons
        split: if_splits option.splits column.splits)
  then obtain kc vs where
    keys: "getcol df ''cache_type'' = Some kc" and
    vals: "getcol df ''latency_us'' = Some (NumCol vs)"
    by blast
  let ?ks = "label_cells kc"
  let ?gs = "groupby ?ks vs"
  have len: "length ?ks = length vs"
    using rectangular_columns [OF rect keys vals] .
  have r: "r = plot_groups ?gs"
    using run keys vals by (simp add: plot_results_file [of fs path df, OF csv] plot_frame_def)
  obtain evs out where eo: "plot_groups ?gs = (evs, out)"
    by (cases "plot_groups ?gs")
  have pe: "printed_stats evs = stats_output r"
    by (simp add: stats_output_def r eo)
  from plot_groups_run [OF eo] blocks
  have ok: "list_all hist_ok ?gs"
    and eq: "blocks = map (\<lambda>g. (fst g, describe (snd g))) ?gs"
    unfolding pe by (auto split: if_splits)
  from b obtain k where k: "k \<in> set (dropna ?ks)" and b_eq: "b = (k, describe (rows_of k ?ks vs))"
    unfolding eq by (auto simp: groupby_def set_group_keys)
  have "0 < present_rows k ?ks vs"
    using ok k groups_ok_iff [OF len] by (simp add: list_all_iff)
  then have "dropna (rows_of k ?ks vs) \<noteq> []"
    using dropna_rows_of [of k ?ks vs] by auto
  then have "ordered_stats (snd b)"
    unfolding b_eq by (simp add: describe_ordered)
  moreover have "s_count (snd b) = present_rows (fst b) ?ks vs"
    unfolding b_eq by (simp add: count_describe dropna_rows_of)
  ultimately show ?thesis using keys vals by blast
qed

text \<open>
  On the table of numbered cache types, the block of type 1 is computed from the
  measurements 8, 1, 4, 2: count 4, min 1, quartiles 1.75, 3 and 5, max 8.
\<close>

theorem C5_ordered_statistics_witness:
  "ordered_stats (describe [Some 8, Some 1, None, Some 4, Some 2]) \<and>
   s_count (describe [Some 8, Some 1, None, Some 4, Some 2]) = 4 \<and>
   s_min (describe [Some 8, Some 1, None, Some 4, Some 2]) = Some 1 \<and>
   s_q25 (describe [Some 8, Some 1, None, Some 4, Some 2]) = Some (7 / 4) \<and>
   s_q50 (describe [Some 8, Some 1, None, Some 4, Some 2]) = Some 3 \<and>
   s_q75 (describe [Some 8, Some 1, None, Some 4, Some 2]) = Some 5 \<and>
   s_max (describe [Some 8, Some 1, None, Some 4, Some 2]) = Some 8"
proof -
  let ?fs = "single_file ''r.csv'' numbered_table"
  let ?s = "describe [Some 8, Some 1, None, Some 4, Some 2]"
  let ?b = "(LNum 1, ?s)"
  let ?blocks = "[?b, (LNum 2, describe [Some 3])]"
  let ?r = "the (plot_results ?fs ''r.csv'')"
  have run: "plot_results ?fs ''r.csv'' = Some ?r"
    by (simp add: plot_results_def path_exists_def read_csv_def columns_def single_file_def
       plot_frame_def numbered_table_def getcol_def)
  have out: "stats_output ?r = [?blocks]"
    by (simp add: plot_results_def path_exists_def read_csv_def columns_def single_file_def
       plot_frame_def plot_groups_def boxplot_def label_cells_def
       numbered_table_def getcol_def groupby_def rows_of_def group_keys_def
       hist_def stats_output_def printed_stats_def Let_def)
  have h1: "?fs ''r.csv'' = Some (CsvFile numbered_table)"
    by (simp add: single_file_def)
  have h2: "rectangular numbered_table"
    by (simp add: rectangular_def numbered_table_def col_length_def)
  have h4: "?blocks \<in> set (stats_output ?r)"
    unfolding out by simp
  have h5: "?b \<in> set ?blocks"
    by simp
  have "ordered_stats (snd ?b)"
    using C5_ordered_statistics [of ?fs "''r.csv''" numbered_table ?r ?blocks ?b,
        OF h1 h2 run h4 h5]
    by (rule conjunct1)
  then have "ordered_stats ?s"
    by simp
  moreover have "s_count ?s = 4" and "s_min ?s = Some 1" and "s_max ?s = Some 8"
    by (simp_all add: describe_def Let_def min_of_def max_of_def)
  moreover have "s_q25 ?s = Some (7 / 4)" and "s_q50 ?s = Some 3" and "s_q75 ?s = Some 5"
    by (simp_all add: describe_def Let_def quantile_def lerp_at_def)
  ultimately show ?thesis
    by simp
qed

text \<open>
  Claim C7. Two tables that agree on \<^verbatim>\<open>cache_type\<close> and on \<^verbatim>\<open>latency_us\<close> (the
  same cells in the same order, or the column absent from both) give the same run, in
  particular the same printed statistics, whatever their other columns hold.
\<close>

theorem C7_other_columns_ignored:
  assumes "fs1 p1 = Some (CsvFile df1)" and "fs2 p2 = Some (CsvFile df2)"
    and "getcol df1 ''cache_type'' = getcol df2 ''cache_type''"
    and "getcol df1 ''latency_us'' = getcol df2 ''latency_us''"
  shows "plot_results fs1 p1 = plot_results fs2 p2 \<and>
         stats_of (plot_results fs1 p1) = stats_of (plot_results fs2 p2)"
  using assms by (simp add: plot_results_file plot_frame_def)

theorem C7_other_columns_ignored_witness:
  "plot_results (single_file ''narrow.csv'' example_table) ''narrow.csv'' =
   plot_results (single_file ''wide.csv'' example_wide) ''wide.csv''"
  using C7_other_columns_ignored [of "single_file ''narrow.csv'' example_table" "''narrow.csv''"
      example_table "single_file ''wide.csv'' example_wide" "''wide.csv''" example_wide]
  by (simp add: single_file_def getcol_def example_table_def example_wide_def)

section \<open>The Fetcher's runs\<close>



text \<open>
  Claim C9, as the code has it. Let the symbols before some symbol of the list download
  and write, and let that symbol's download or write raise. Then the run ends with the
  exception: the files of the earlier symbols are written and their lines printed, in
  order; no line is printed for that symbol or a later one, and no file of a later symbol
  is touched. The file of the failing symbol is as it was when the download raised or the
  file could not be opened; when the write broke off after the file was opened, the file
  holds what had been written by then.
\<close>

theorem C9_abort_on_error:
  assumes loc: "resolve (cwd w) (dirname file) = project @ [''scripts'']"
    and split: "symbols = pre @ s # post"
    and ok: "\<forall>t\<in>set pre. stored env (data_file project t) t = Some Written"
    and bad: "stored env (data_file project s) s \<noteq> Some Written"
    and dir: "data_dir project \<in> dirs w \<or>
              (files w (data_dir project) = None \<and> creatable env (data_dir project))"
  shows "\<exists>w' e. fetch_data env file w = (w', Raised e) \<and>
           stdout w' = stdout w @ map (saved_line (base_path_of file)) pre \<and>
           (\<forall>t\<in>set pre. files w' (data_file project t) = fetched env t) \<and>
           (\<forall>t\<in>set post. files w' (data_file project t) = files w (data_file project t)) \<and>
           (\<forall>q. q \<notin> data_file project ` set (pre @ [s]) \<longrightarrow> files w' q = files w q) \<and>
           files w' (data_file project s) =
             (case stored env (data_file project s) s of
                Some (Broken part) \<Rightarrow> Some part
              | _ \<Rightarrow> files w (data_file project s))"
proof -
  let ?b = "base_path_of file"
  let ?pl = "\<lambda>t. resolve (cwd w) (file_path ?b t)"
  have sub: "set pre \<subseteq> set symbols" "s \<in> set symbols" "set post \<subseteq> set symbols"
    unfolding split by auto
  have dist: "distinct (pre @ s # post)"
    using distinct_symbols unfolding split .
  then have d_pre: "distinct pre" and s_pre: "s \<notin> set pre"
    and post_apart: "\<forall>t\<in>set post. t \<notin> set (pre @ [s])"
    by auto
  have bp: "resolve (cwd w) ?b = data_dir project"
    using resolve_base_path [OF loc] .
  have pl: "?pl t = data_file project t" if "t \<in> set symbols" for t
    using resolve_file_path [OF that loc] .
  from makedirs_ok [of w ?b env] dir obtain w1 where
    mk: "makedirs env ?b w = Inr w1"
    and w1_files: "files w1 = files w" and w1_out: "stdout w1 = stdout w"
    and w1_cwd: "cwd w1 = cwd w"
    unfolding bp by blast
  have pl_map: "map ?pl pre = map (data_file project) pre"
    using pl sub(1) by (intro map_cong) auto
  have pl_img: "?pl ` set pre = data_file project ` set pre"
    using pl sub(1) by (intro image_cong) auto
  have "\<forall>t\<in>set pre. stored env (resolve (cwd w1) (file_path ?b t)) t = Some Written"
    using ok pl sub(1) by (auto simp: w1_cwd)
  from fetch_loop_prefix [OF this, of "s # post"] obtain w2 where
    run: "fetch_loop env ?b (pre @ s # post) w1 = fetch_loop env ?b (s # post) w2"
    and w2_cwd: "cwd w2 = cwd w"
    and w2_out: "stdout w2 = stdout w @ map (saved_line ?b) pre"
    and other: "\<forall>q. q \<notin> data_file project ` set pre \<longrightarrow> files w2 q = files w q"
    and mine: "distinct (map (data_file project) pre) \<longrightarrow>
                 (\<forall>t\<in>set pre. files w2 (?pl t) = fetched env t)"
    unfolding w1_cwd w1_out w1_files pl_map pl_img by blast
  have mine': "\<forall>t\<in>set pre. files w2 (data_file project t) = fetched env t"
  proof
    fix t assume t: "t \<in> set pre"
    then have "files w2 (?pl t) = fetched env t"
      using mine distinct_data_files [OF d_pre, of project] by blast
    moreover have "?pl t = data_file project t"
      using pl t sub(1) by blast
    ultimately show "files w2 (data_file project t) = fetched env t"
      by simp
  qed
  have ps: "resolve (cwd w2) (file_path ?b s) = data_file project s"
    using pl [OF sub(2)] by (simp add: w2_cwd)
  have "stored env (resolve (cwd w2) (file_path ?b s)) s \<noteq> Some Written"
    using bad by (simp add: ps)
  from fetch_loop_raise [OF this, of post] obtain w' e where
    stop: "fetch_loop env ?b (s # post) w2 = (w', Raised e)"
    and w'_out: "stdout w' = stdout w2"
    and rest: "\<forall>q. q \<noteq> data_file project s \<longrightarrow> files w' q = files w2 q"
    and torn: "files w' (data_file project s) =
             (case stored env (data_file project s) s of
                Some (Broken part) \<Rightarrow> Some part
              | _ \<Rightarrow> files w2 (data_file project s))"
    unfolding ps by blast
  have s_apart: "data_file project s \<notin> data_file project ` set pre"
    using s_pre by (auto simp: data_file_inj)
  have c1: "fetch_data env file w = (w', Raised e)"
    using mk run stop split by (simp add: fetch_data_def Let_def)
  have c2: "stdout w' = stdout w @ map (saved_line ?b) pre"
    using w'_out w2_out by simp
  have c3: "\<forall>t\<in>set pre. files w' (data_file project t) = fetched env t"
  proof
    fix t assume t: "t \<in> set pre"
    then have "data_file project t \<noteq> data_file project s"
      using s_pre by (auto simp: data_file_inj)
    then have "files w' (data_file project t) = files w2 (data_file project t)"
      using rest by blast
    then show "files w' (data_file project t) = fetched env t"
      using mine' t by simp
  qed
  have c5: "\<forall>q. q \<notin> data_file project ` set (pre @ [s]) \<longrightarrow> files w' q = files w q"
  proof (intro allI impI)
    fix q assume "q \<notin> data_file project ` set (pre @ [s])"
    then have "q \<noteq> data_file project s" and "q \<notin> data_file project ` set pre"
      by auto
    then show "files w' q = files w q"
      using rest other by simp
  qed
  have c4: "\<forall>t\<in>set post. files w' (data_file project t) = files w (data_file project t)"
  proof
    fix t assume "t \<in> set post"
    then have "t \<notin> set (pre @ [s])"
      using post_apart by blast
    then have "data_file project t \<notin> data_file project ` set (pre @ [s])"
      by (auto simp: data_file_inj)
    then show "files w' (data_file project t) = files w (data_file project t)"
      using c5 by blast
  qed
  have c6: "files w' (data_file project s) =
             (case stored env (data_file project s) s of
                Some (Broken part) \<Rightarrow> Some part
              | _ \<Rightarrow> files w (data_file project s))"
  proof -
    have "files w2 (data_file project s) = files w (data_file project s)"
      using other s_apart by blast
    then show ?thesis
      using torn by (simp split: option.splits write_result.splits)
  qed
  show ?thesis
    using c1 c2 c3 c4 c5 c6 by (intro exI [of _ w'] exI [of _ e] conjI)
qed

text \<open>
  The provider fails on GOOG: two lines, AAPL's and MSFT's, and no file for GOOG or TSLA.
\<close>

theorem C9_abort_on_error_witness:
  "snd (fetch_data gap_provider ''/repo/scripts/fetch_data.py'' fresh_world) \<noteq> Returned \<and>
   stdout (fst (fetch_data gap_provider ''/repo/scripts/fetch_data.py'' fresh_world)) =
     [''Saved /repo/scripts/../data/AAPL.csv'', ''Saved /repo/scripts/../data/MSFT.csv''] \<and>
   files (fst (fetch_data gap_provider ''/repo/scripts/fetch_data.py'' fresh_world))
     [''repo'', ''data'', ''MSFT.csv''] = Some ''prices of MSFT'' \<and>
   files (fst (fetch_data gap_provider ''/repo/scripts/fetch_data.py'' fresh_world))
     [''repo'', ''data'', ''GOOG.csv''] = None \<and>
   files (fst (fetch_data gap_provider ''/repo/scripts/fetch_data.py'' fresh_world))
     [''repo'', ''data'', ''TSLA.csv''] = None"
proof -
  let ?file = "''/repo/scripts/fetch_data.py''"
  have loc: "resolve (cwd fresh_world) (dirname ?file) = [''repo''] @ [''scripts'']"
    by (simp add: dirname_def resolve_def is_abs_def norm_step_def fresh_world_def)
  have f: "fetched gap_provider ''MSFT'' = Some ''prices of MSFT''"
    and g: "fetched gap_provider ''GOOG'' = None"
    by (simp_all add: fetched_def gap_provider_def)
  have h0: "symbols = [''AAPL'', ''MSFT''] @ ''GOOG'' # [''TSLA'']"
    by (simp add: symbols_def)
  have h1: "\<forall>t\<in>set [''AAPL'', ''MSFT'']. stored gap_provider (data_file [''repo''] t) t = Some Written"
    by (simp add: stored_def fetched_def gap_provider_def)
  have h2: "stored gap_provider (data_file [''repo''] ''GOOG'') ''GOOG'' \<noteq> Some Written"
    by (simp add: stored_def g)
  have h3: "data_dir [''repo''] \<in> dirs fresh_world \<or>
      (files fresh_world (data_dir [''repo'']) = None \<and> creatable gap_provider (data_dir [''repo'']))"
    by (simp add: fresh_world_def gap_provider_def)
  have b: "base_path_of ?file = ''/repo/scripts/../data''"
    by (simp add: base_path_of_def dirname_def path_join_def join2_def)
  have sl: "map (saved_line ''/repo/scripts/../data'') [''AAPL'', ''MSFT''] =
     [''Saved /repo/scripts/../data/AAPL.csv'', ''Saved /repo/scripts/../data/MSFT.csv'']"
    by (simp add: saved_line_def file_path_def path_join_def join2_def)
  from C9_abort_on_error [of fresh_world ?file "[''repo'']" "[''AAPL'', ''MSFT'']" "''GOOG''"
      "[''TSLA'']" gap_provider, OF loc h0 h1 h2 h3]
  obtain w' e where r: "fetch_data gap_provider ?file fresh_world = (w', Raised e)"
    and o: "stdout w' = stdout fresh_world @
        map (saved_line (base_path_of ?file)) [''AAPL'', ''MSFT'']"
    and pre: "\<forall>t\<in>set [''AAPL'', ''MSFT'']. files w' (data_file [''repo''] t) = fetched gap_provider t"
    and post: "\<forall>t\<in>set [''TSLA'']. files w' (data_file [''repo''] t) =
        files fresh_world (data_file [''repo''] t)"
    and this_one: "files w' (data_file [''repo''] ''GOOG'') =
             (case stored gap_provider (data_file [''repo''] ''GOOG'') ''GOOG'' of
                Some (Broken part) \<Rightarrow> Some part
              | _ \<Rightarrow> files fresh_world (data_file [''repo''] ''GOOG''))"
    by (elim exE conjE)
  have m: "files w' [''repo'', ''data'', ''MSFT.csv''] = Some ''prices of MSFT''"
    using pre by (simp add: data_file_def f)
  have t: "files w' [''repo'', ''data'', ''TSLA.csv''] = None"
    using post by (simp add: data_file_def fresh_world_def)
  have gg: "files w' [''repo'', ''data'', ''GOOG.csv''] = None"
    using this_one by (simp add: stored_def g) (simp add: data_file_def fresh_world_def)
  have o': "stdout w' =
      [''Saved /repo/scripts/../data/AAPL.csv'', ''Saved /repo/scripts/../data/MSFT.csv'']"
    using o unfolding b sl by (simp add: fresh_world_def)
  show ?thesis
    unfolding r using o' m gg t by simp
qed

text \<open>
  Claim C9 as stated fails for a write that breaks off: the download of GOOG succeeds,
  its write raises after the file was opened, the run aborts, and there is a file for
  GOOG where there was none.
\<close>

theorem C9_torn_write_counterexample:
  "snd (fetch_data torn_provider ''/repo/scripts/fetch_data.py'' fresh_world) = Raised OSError \<and>
   files fresh_world [''repo'', ''data'', ''GOOG.csv''] = None \<and>
   files (fst (fetch_data torn_provider ''/repo/scripts/fetch_data.py'' fresh_world))
     [''repo'', ''data'', ''GOOG.csv''] = Some ''prices''"
  by (simp add: fetch_data_def base_path_of_def dirname_def path_join_def join2_def
       makedirs_def resolve_def is_abs_def norm_step_def fresh_world_def torn_provider_def
       symbols_def file_path_def to_csv_def print_line_def Let_def)

end
